theory Spec2Isabelle
  imports Complex_Main "HOL-Library.Multiset" "HOL-Library.List_Lexorder" "HOL-Library.Char_ord"
begin

section \<open>Data model\<close>

text \<open>
  The interfaces \<^verbatim>\<open>Student\<close> (students.ts) and \<^verbatim>\<open>Match\<close> (matches.ts).
  Identifiers and names are strings. A score is a JavaScript number; the data model of
  the specification makes it an integer, and it is an \<open>int\<close> here. A date is its
  \<^verbatim>\<open>getTime()\<close> value.
  The field \<^verbatim>\<open>id\<close> is suffixed with its interface, since \<open>id\<close> is the
  identity function of HOL.
\<close>

record Student =
  id_student :: string
  name :: string
  score :: int

record Match =
  id_match :: string
  playerA :: string
  playerB :: string
  winner :: string
  loser :: string
  date :: int

section \<open>matches.ts: the eligibility rule\<close>

text \<open>
  The functions of matches.ts read the store \<^verbatim>\<open>matchHistory\<close>
  (subscribe, copy, unsubscribe). The value read is the parameter \<open>matches\<close> here.
\<close>

definition getMatchesBetweenStudents :: "string \<Rightarrow> string \<Rightarrow> Match list \<Rightarrow> Match list" where
  "getMatchesBetweenStudents studentA studentB matches =
     filter (\<lambda>m. (playerA m = studentA \<and> playerB m = studentB) \<or>
                 (playerA m = studentB \<and> playerB m = studentA)) matches"

definition canPlay :: "string \<Rightarrow> string \<Rightarrow> Match list \<Rightarrow> bool" where
  "canPlay studentA studentB matches =
     (let matchesBetweenPlayers =
            filter (\<lambda>m. (playerA m = studentA \<and> playerB m = studentB) \<or>
                        (playerA m = studentB \<and> playerB m = studentA)) matches
      in if length matchesBetweenPlayers < 3 then True
         else if length matchesBetweenPlayers = 3 then
           (let studentAWins = length (filter (\<lambda>m. winner m = studentA) matchesBetweenPlayers);
                studentBWins = length (filter (\<lambda>m. winner m = studentB) matchesBetweenPlayers)
            in if studentAWins = 2 \<or> studentBWins = 2 then True else False)
         else False)"

section \<open>Array.prototype.sort\<close>

text \<open>
  \<^verbatim>\<open>xs.sort(cmp)\<close> is a stable sort: with a comparator that is a consistent
  comparison, the result is the one stable sorted permutation, whatever algorithm the
  engine runs. The model is the stable insertion sort: \<open>x\<close> stays in front of \<open>y\<close>
  unless \<open>cmp x y > 0\<close>.
\<close>

fun insert_cmp :: "('a \<Rightarrow> 'a \<Rightarrow> 'n::{zero,ord}) \<Rightarrow> 'a \<Rightarrow> 'a list \<Rightarrow> 'a list" where
  "insert_cmp cmp x [] = [x]"
| "insert_cmp cmp x (y # ys) = (if cmp x y \<le> 0 then x # y # ys else y # insert_cmp cmp x ys)"

definition sort_cmp :: "('a \<Rightarrow> 'a \<Rightarrow> 'n::{zero,ord}) \<Rightarrow> 'a list \<Rightarrow> 'a list" where
  "sort_cmp cmp xs = foldr (insert_cmp cmp) xs []"

section \<open>opponents.ts: the opponent finder\<close>

text \<open>
  \<^verbatim>\<open>getStudents()\<close> fetches the roster; what it returns is the parameter
  \<open>students\<close> of the functions below, placed after the parameters of the source.
  \<^verbatim>\<open>MatchResult\<close> has the fields of \<^verbatim>\<open>Match\<close>; it is the same record here.
\<close>

definition getHeadToHead :: "string \<Rightarrow> string \<Rightarrow> Match list \<Rightarrow> Match list" where
  "getHeadToHead studentA studentB matches =
     map (\<lambda>m. \<lparr>id_match = id_match m, playerA = playerA m, playerB = playerB m,
                winner = winner m, loser = loser m, date = date m\<rparr>)
         (getMatchesBetweenStudents studentA studentB matches)"

definition canHaveBestOfThreeRematch :: "string \<Rightarrow> string \<Rightarrow> Match list \<Rightarrow> bool" where
  "canHaveBestOfThreeRematch studentA studentB matches =
     (let headToHead = getHeadToHead studentA studentB matches
      in if length headToHead \<noteq> 3 then False
         else let studentAWins = length (filter (\<lambda>m. winner m = studentA) headToHead);
                  studentBWins = length (filter (\<lambda>m. winner m = studentB) headToHead)
              in studentAWins = 2 \<or> studentBWins = 2)"

definition isScoreWithinMargin :: "int \<Rightarrow> int \<Rightarrow> int \<Rightarrow> bool" where
  "isScoreWithinMargin scoreA scoreB margin = (\<bar>scoreA - scoreB\<bar> \<le> margin)"

definition getEligibleOpponents :: "string \<Rightarrow> int \<Rightarrow> Student list \<Rightarrow> Match list \<Rightarrow> Student list" where
  "getEligibleOpponents studentId margin students matches =
     (case find (\<lambda>s. id_student s = studentId) students of
        None \<Rightarrow> []
      | Some targetStudent \<Rightarrow>
          filter (\<lambda>opponent.
              if id_student opponent = studentId then False
              else if \<not> isScoreWithinMargin (score targetStudent) (score opponent) margin then False
              else if \<not> canPlay studentId (id_student opponent) matches then
                (if length (getHeadToHead studentId (id_student opponent) matches) = 3
                 then canHaveBestOfThreeRematch studentId (id_student opponent) matches
                 else False)
              else True) students)"

record OpponentDetails =
  student_det :: Student
  matchCount_det :: nat
  lastPlayed :: "int option"
  scoreDifference_det :: int

definition getEligibleOpponentsWithDetails ::
  "string \<Rightarrow> int \<Rightarrow> Student list \<Rightarrow> Match list \<Rightarrow> OpponentDetails list" where
  "getEligibleOpponentsWithDetails studentId margin students matches =
     (case find (\<lambda>s. id_student s = studentId) students of
        None \<Rightarrow> []
      | Some targetStudent \<Rightarrow>
          sort_cmp (\<lambda>a b.
              if scoreDifference_det a \<noteq> scoreDifference_det b
              then scoreDifference_det a - scoreDifference_det b
              else int (matchCount_det a) - int (matchCount_det b))
            (map (\<lambda>opponent.
                let headToHead = getHeadToHead studentId (id_student opponent) matches;
                    lastMatch = (if length headToHead > 0
                                 then Some (hd (sort_cmp (\<lambda>a b. date b - date a) headToHead))
                                 else None)
                in \<lparr>student_det = opponent,
                    matchCount_det = length headToHead,
                    lastPlayed = map_option date lastMatch,
                    scoreDifference_det = \<bar>score targetStudent - score opponent\<bar>\<rparr>)
              (getEligibleOpponents studentId margin students matches)))"

definition getBestOpponentRecommendation ::
  "string \<Rightarrow> int \<Rightarrow> Student list \<Rightarrow> Match list \<Rightarrow> Student option" where
  "getBestOpponentRecommendation studentId margin students matches =
     (let eligibleOpponents = getEligibleOpponentsWithDetails studentId margin students matches
      in if length eligibleOpponents > 0 then Some (student_det (hd eligibleOpponents)) else None)"

definition getOpponentRecommendations ::
  "string \<Rightarrow> int \<Rightarrow> nat \<Rightarrow> Student list \<Rightarrow> Match list \<Rightarrow> Student list" where
  "getOpponentRecommendations studentId margin limit students matches =
     map student_det (take limit (getEligibleOpponentsWithDetails studentId margin students matches))"

definition hasEligibleOpponents :: "string \<Rightarrow> int \<Rightarrow> Student list \<Rightarrow> Match list \<Rightarrow> bool" where
  "hasEligibleOpponents studentId margin students matches =
     (length (getEligibleOpponents studentId margin students matches) > 0)"

section \<open>matchRecommendations.ts: the pairing generator\<close>

record MatchRecommendation =
  playerA_rec :: Student
  playerB_rec :: Student
  scoreDifference :: int

text \<open>
  \<^verbatim>\<open>shuffleArray\<close> is the Fisher-Yates loop, \<open>i\<close> from \<open>length - 1\<close> down to
  \<open>1\<close>. \<^verbatim>\<open>Math.floor(Math.random() * (i + 1))\<close> is an integer of \<open>[0, i]\<close>;
  the draws are the parameter \<open>rnd\<close>, read at \<open>i\<close> and reduced into that range.
\<close>

fun shuffle_from :: "(nat \<Rightarrow> nat) \<Rightarrow> nat \<Rightarrow> 'a list \<Rightarrow> 'a list" where
  "shuffle_from rnd 0 shuffled = shuffled"
| "shuffle_from rnd (Suc k) shuffled =
     (let i = Suc k;
          j = rnd i mod (i + 1)
      in shuffle_from rnd k (shuffled[i := shuffled ! j, j := shuffled ! i]))"

definition shuffleArray :: "(nat \<Rightarrow> nat) \<Rightarrow> 'a list \<Rightarrow> 'a list" where
  "shuffleArray rnd array = shuffle_from rnd (length array - 1) array"

text \<open>
  The body of the \<^verbatim>\<open>for (const student of ...)\<close> loops, on the pair of the
  recommendations pushed so far and the set \<^verbatim>\<open>usedStudents\<close>. \<open>roster\<close> is
  what \<^verbatim>\<open>getStudents()\<close> returns inside \<^verbatim>\<open>getEligibleOpponents\<close>.
\<close>

type_synonym pairing_state = "MatchRecommendation list \<times> string set"

definition recommend_step ::
  "int \<Rightarrow> Student list \<Rightarrow> Match list \<Rightarrow> pairing_state \<Rightarrow> Student \<Rightarrow> pairing_state" where
  "recommend_step margin roster matches st student =
     (case st of (recommendations, usedStudents) \<Rightarrow>
        if id_student student \<in> usedStudents then st
        else
          let eligibleOpponents = getEligibleOpponents (id_student student) margin roster matches;
              availableOpponents = filter (\<lambda>opponent. id_student opponent \<notin> usedStudents) eligibleOpponents
          in if length availableOpponents > 0 then
               (let sortedOpponents =
                      sort_cmp (\<lambda>a b.
                          let scoreDiffA = \<bar>score student - score a\<bar>;
                              scoreDiffB = \<bar>score student - score b\<bar>
                          in if scoreDiffA \<noteq> scoreDiffB then scoreDiffA - scoreDiffB else 0)
                        availableOpponents;
                    bestOpponent = hd sortedOpponents
                in if canPlay (id_student student) (id_student bestOpponent) matches then
                     (recommendations @
                        [\<lparr>playerA_rec = student, playerB_rec = bestOpponent,
                          scoreDifference = \<bar>score student - score bestOpponent\<bar>\<rparr>],
                      insert (id_student bestOpponent) (insert (id_student student) usedStudents))
                   else st)
             else st)"

definition getMatchRecommendations ::
  "Student list \<Rightarrow> int \<Rightarrow> (nat \<Rightarrow> nat) \<Rightarrow> Student list \<Rightarrow> Match list \<Rightarrow> MatchRecommendation list" where
  "getMatchRecommendations students margin rnd roster matches =
     (if length students < 2 then []
      else fst (foldl (recommend_step margin roster matches) ([], {}) (shuffleArray rnd students)))"

definition optimized_step ::
  "int \<Rightarrow> Student list \<Rightarrow> Match list \<Rightarrow> pairing_state \<Rightarrow> Student \<Rightarrow> pairing_state" where
  "optimized_step margin roster matches st student =
     (case st of (recommendations, usedStudents) \<Rightarrow>
        if id_student student \<in> usedStudents then st
        else
          let eligibleOpponents = getEligibleOpponents (id_student student) margin roster matches;
              availableOpponents = filter (\<lambda>opponent. id_student opponent \<notin> usedStudents) eligibleOpponents
          in if length availableOpponents > 0 then
               (let bestOpponent =
                      foldl (\<lambda>best current.
                          let bestDiff = \<bar>score student - score best\<bar>;
                              currentDiff = \<bar>score student - score current\<bar>
                          in if currentDiff < bestDiff then current else best)
                        (hd availableOpponents) (tl availableOpponents)
                in if canPlay (id_student student) (id_student bestOpponent) matches then
                     (recommendations @
                        [\<lparr>playerA_rec = student, playerB_rec = bestOpponent,
                          scoreDifference = \<bar>score student - score bestOpponent\<bar>\<rparr>],
                      insert (id_student bestOpponent) (insert (id_student student) usedStudents))
                   else st)
             else st)"

definition getOptimizedMatchRecommendations ::
  "Student list \<Rightarrow> int \<Rightarrow> Student list \<Rightarrow> Match list \<Rightarrow> MatchRecommendation list" where
  "getOptimizedMatchRecommendations students margin roster matches =
     (if length students < 2 then []
      else
        let sortedStudents = sort_cmp (\<lambda>a b. score b - score a) students
        in fst (foldl (optimized_step margin roster matches) ([], {}) sortedStudents))"

record RecommendationStats =
  totalStudents :: nat
  studentsWithOpponents :: nat
  possibleMatches :: nat
  averageScoreDifference :: rat

text \<open>
  The loop of \<^verbatim>\<open>getMatchRecommendationStats\<close> on its four counters
  \<^verbatim>\<open>studentsWithOpponents\<close>, \<^verbatim>\<open>totalPossibleMatches\<close>,
  \<^verbatim>\<open>totalScoreDifference\<close> and \<^verbatim>\<open>matchCount\<close>. The quotient of the
  last two is a JavaScript number; it is modelled as the exact rational. The counter
  \<^verbatim>\<open>studentsWithOpponents\<close> is bound as \<open>withOpponents\<close> where the record
  field of that name is in scope.
\<close>

definition stats_step ::
  "int \<Rightarrow> Student list \<Rightarrow> Match list \<Rightarrow> nat \<times> nat \<times> int \<times> nat \<Rightarrow> Student \<Rightarrow> nat \<times> nat \<times> int \<times> nat" where
  "stats_step margin roster matches st student =
     (let (studentsWithOpponents, totalPossibleMatches, totalScoreDifference, matchCount) = st;
          eligibleOpponents = getEligibleOpponents (id_student student) margin roster matches
      in if length eligibleOpponents > 0 then
           (let (totalScoreDifference, matchCount) =
                  foldl (\<lambda>(totalScoreDifference, matchCount) opponent.
                           (totalScoreDifference + \<bar>score student - score opponent\<bar>, matchCount + 1))
                    (totalScoreDifference, matchCount) eligibleOpponents
            in (studentsWithOpponents + 1,
                totalPossibleMatches + length eligibleOpponents,
                totalScoreDifference, matchCount))
         else st)"

definition getMatchRecommendationStats ::
  "Student list \<Rightarrow> int \<Rightarrow> Student list \<Rightarrow> Match list \<Rightarrow> RecommendationStats" where
  "getMatchRecommendationStats students margin roster matches =
     (if length students < 2 then
        \<lparr>totalStudents = length students, studentsWithOpponents = 0,
         possibleMatches = 0, averageScoreDifference = 0\<rparr>
      else
        (let (withOpponents, totalPossibleMatches, totalScoreDifference, matchCount) =
               foldl (stats_step margin roster matches) (0, 0, 0, 0) students
         in \<lparr>totalStudents = length students,
             studentsWithOpponents = withOpponents,
             possibleMatches = totalPossibleMatches,
             averageScoreDifference =
               (if matchCount > 0 then of_int totalScoreDifference / of_nat matchCount else 0)\<rparr>))"

section \<open>leaderboard.ts: the stats aggregator\<close>

text \<open>
  \<^verbatim>\<open>winRate\<close> is a JavaScript number; it is modelled as the exact rational.
  \<^verbatim>\<open>LeaderboardEntry\<close> is \<^verbatim>\<open>{student, ...stats}\<close>: the record of the stats,
  extended by the student.
\<close>

record StudentStats =
  wins :: nat
  losses :: nat
  totalMatches :: nat
  winRate :: rat

record LeaderboardEntry = StudentStats +
  student :: Student

definition calculateStudentStats :: "string \<Rightarrow> Match list \<Rightarrow> StudentStats" where
  "calculateStudentStats studentId matches =
     (let (wins, losses) =
            foldl (\<lambda>(wins, losses) m.
                if playerA m = studentId \<or> playerB m = studentId then
                  (if winner m = studentId then (wins + 1, losses) else (wins, losses + 1))
                else (wins, losses))
              (0, 0) matches;
          totalMatches = wins + losses;
          winRate = (if totalMatches > 0 then (of_nat wins / of_nat totalMatches) * 100 else 0)
      in \<lparr>wins = wins, losses = losses, totalMatches = totalMatches, winRate = winRate\<rparr>)"

text \<open>
  \<^verbatim>\<open>String.prototype.localeCompare\<close> is a function of the host. It compares by the
  collation of the locale: the collation is the parameter \<open>collate\<close>, the sort key of a
  string in a linear order.
\<close>

definition localeCompare :: "(string \<Rightarrow> 'k::linorder) \<Rightarrow> string \<Rightarrow> string \<Rightarrow> rat" where
  "localeCompare collate a b =
     (if collate a < collate b then - 1 else if collate b < collate a then 1 else 0)"

definition leaderboard_cmp ::
  "(string \<Rightarrow> 'k::linorder) \<Rightarrow> LeaderboardEntry \<Rightarrow> LeaderboardEntry \<Rightarrow> rat" where
  "leaderboard_cmp collate a b =
     (if score (student b) \<noteq> score (student a) then of_int (score (student b) - score (student a))
      else if winRate b \<noteq> winRate a then winRate b - winRate a
      else if totalMatches b \<noteq> totalMatches a then of_int (int (totalMatches b) - int (totalMatches a))
      else localeCompare collate (name (student a)) (name (student b)))"

definition getLeaderboard ::
  "(string \<Rightarrow> 'k::linorder) \<Rightarrow> Student list \<Rightarrow> Match list \<Rightarrow> LeaderboardEntry list" where
  "getLeaderboard collate students matches =
     sort_cmp (leaderboard_cmp collate)
       (map (\<lambda>s.
           let stats = calculateStudentStats (id_student s) matches
           in \<lparr>wins = wins stats, losses = losses stats, totalMatches = totalMatches stats,
               winRate = winRate stats, student = s\<rparr>)
         students)"

section \<open>Example data\<close>

definition mkMatch :: "string \<Rightarrow> string \<Rightarrow> string \<Rightarrow> Match" where
  "mkMatch w l i = \<lparr>id_match = i, playerA = w, playerB = l, winner = w, loser = l, date = 0\<rparr>"

definition history_2_1 :: "Match list" where
  "history_2_1 = [mkMatch ''A'' ''B'' ''1'', mkMatch ''B'' ''A'' ''2'', mkMatch ''A'' ''B'' ''3'']"

definition history_3_0 :: "Match list" where
  "history_3_0 = [mkMatch ''A'' ''B'' ''1'', mkMatch ''A'' ''B'' ''2'', mkMatch ''A'' ''B'' ''3'']"

definition history_2_2 :: "Match list" where
  "history_2_2 = history_2_1 @ [mkMatch ''B'' ''A'' ''4'']"

definition mkStudent :: "string \<Rightarrow> string \<Rightarrow> int \<Rightarrow> Student" where
  "mkStudent i n sc = \<lparr>id_student = i, name = n, score = sc\<rparr>"

definition pool_0_1_5 :: "Student list" where
  "pool_0_1_5 = [mkStudent ''1'' ''Ann'' 0, mkStudent ''2'' ''Bob'' 1, mkStudent ''3'' ''Cy'' 5]"

definition leaders_2_1 :: "Student list" where
  "leaders_2_1 = [mkStudent ''C'' ''Cy'' 7, mkStudent ''B'' ''Bob'' 10, mkStudent ''A'' ''Ann'' 10]"

definition malformed_record :: Match where
  "malformed_record = \<lparr>id_match = ''9'', playerA = ''A'', playerB = ''B'', winner = ''Z'', loser = ''A'', date = 0\<rparr>"

definition stale_pool :: "Student list" where
  "stale_pool = [mkStudent ''1'' ''Ann'' 3, mkStudent ''2'' ''Bob'' 1]"

definition stale_roster :: "Student list" where
  "stale_roster = [mkStudent ''1'' ''Ann'' 0, mkStudent ''2'' ''Bob'' 1]"

definition twin_pool :: "Student list" where
  "twin_pool = [mkStudent ''x'' ''Ann'' 0, mkStudent ''x'' ''Bob'' 4, mkStudent ''y'' ''Cy'' 0]"

definition lone_pool :: "Student list" where
  "lone_pool = [mkStudent ''1'' ''Ann'' 0]"

definition tie_roster :: "Student list" where
  "tie_roster = [mkStudent ''t'' ''Tom'' 0, mkStudent ''z'' ''Zed'' 0, mkStudent ''a'' ''Amy'' 0]"

section \<open>Observations on a round\<close>

definition paired_ids :: "MatchRecommendation list \<Rightarrow> string list" where
  "paired_ids recommendations =
     concat (map (\<lambda>r. [id_student (playerA_rec r), id_student (playerB_rec r)]) recommendations)"

text \<open>What one pass of either loop body does: nothing, or one new pairing.\<close>

definition emits :: "int \<Rightarrow> Student list \<Rightarrow> Match list \<Rightarrow> pairing_state \<Rightarrow> Student \<Rightarrow> pairing_state \<Rightarrow> bool" where
  "emits margin roster matches st s st' =
     (st' = st \<or>
      (\<exists>b. b \<in> set (getEligibleOpponents (id_student s) margin roster matches)
         \<and> id_student s \<notin> snd st \<and> id_student b \<notin> snd st
         \<and> canPlay (id_student s) (id_student b) matches
         \<and> st' = (fst st @ [\<lparr>playerA_rec = s, playerB_rec = b,
                               scoreDifference = \<bar>score s - score b\<bar>\<rparr>],
                   insert (id_student b) (insert (id_student s) (snd st)))))"

definition disjoint_round :: "pairing_state \<Rightarrow> bool" where
  "disjoint_round st = (distinct (paired_ids (fst st)) \<and> set (paired_ids (fst st)) \<subseteq> snd st)"

definition sound_pairing :: "Student set \<Rightarrow> int \<Rightarrow> Student list \<Rightarrow> Match list \<Rightarrow> MatchRecommendation \<Rightarrow> bool" where
  "sound_pairing S margin roster matches r =
     (playerA_rec r \<in> S
      \<and> playerB_rec r \<in> set (getEligibleOpponents (id_student (playerA_rec r)) margin roster matches)
      \<and> scoreDifference r = \<bar>score (playerA_rec r) - score (playerB_rec r)\<bar>
      \<and> canPlay (id_student (playerA_rec r)) (id_student (playerB_rec r)) matches)"

text \<open>
  The order of the leaderboard as the specification words it: descending score, then
  descending win rate, then descending number of matches, then ascending name (under the
  collation).
\<close>

definition ranks_before :: "(string \<Rightarrow> 'k::linorder) \<Rightarrow> LeaderboardEntry \<Rightarrow> LeaderboardEntry \<Rightarrow> bool" where
  "ranks_before collate a b =
     (score (student a) > score (student b)
      \<or> (score (student a) = score (student b)
         \<and> (winRate a > winRate b
            \<or> (winRate a = winRate b
               \<and> (totalMatches a > totalMatches b
                  \<or> (totalMatches a = totalMatches b
                     \<and> collate (name (student a)) \<le> collate (name (student b))))))))"

text \<open>
  The directed pairs of the pairing statistics: each competitor of the pool that is passed,
  with each of the eligible opponents that the opponent finder returns for its id from the
  roster.
\<close>

definition directed_pairs ::
  "Student list \<Rightarrow> int \<Rightarrow> Student list \<Rightarrow> Match list \<Rightarrow> (Student \<times> Student) list" where
  "directed_pairs pool margin roster matches =
     concat (map (\<lambda>s. map (\<lambda>opponent. (s, opponent))
                         (getEligibleOpponents (id_student s) margin roster matches)) pool)"

section \<open>Properties of the eligibility rule\<close>

lemma between_set_eq:
  "((playerA m = a \<and> playerB m = b) \<or> (playerA m = b \<and> playerB m = a))
     = ({playerA m, playerB m} = {a, b})"
  by (auto simp: doubleton_eq_iff)

lemma between_filter_eq:
  "filter (\<lambda>m. (playerA m = a \<and> playerB m = b) \<or> (playerA m = b \<and> playerB m = a)) H
     = filter (\<lambda>m. {playerA m, playerB m} = {a, b}) H"
  by (simp add: between_set_eq)

lemma wins_split:
  "a \<noteq> b \<Longrightarrow>
   length (filter (\<lambda>m. winner m = a) xs) + length (filter (\<lambda>m. winner m = b) xs) \<le> length xs"
  by (induction xs) auto

lemma between_commute:
  "filter (\<lambda>m. (playerA m = a \<and> playerB m = b) \<or> (playerA m = b \<and> playerB m = a)) H
     = filter (\<lambda>m. (playerA m = b \<and> playerB m = a) \<or> (playerA m = a \<and> playerB m = b)) H"
  by (rule filter_cong) auto

lemma canPlay_commute: "canPlay a b H = canPlay b a H"
  unfolding canPlay_def Let_def between_commute [of a b H] by auto

text \<open>
  C1: for distinct competitors \<open>a\<close> and \<open>b\<close>, with \<open>n\<close> the number of records
  between them: \<open>canPlay\<close> is true when \<open>n < 3\<close>; when \<open>n = 3\<close> it is true
  exactly when one of the two won exactly 2 of the 3 records (and then only one of them
  did); when \<open>n > 3\<close> it is false.
\<close>

theorem canPlay_by_record_count:
  "a \<noteq> b \<Longrightarrow>
   (let n = length (filter (\<lambda>m. {playerA m, playerB m} = {a, b}) H);
        winsA = length (filter (\<lambda>m. {playerA m, playerB m} = {a, b} \<and> winner m = a) H);
        winsB = length (filter (\<lambda>m. {playerA m, playerB m} = {a, b} \<and> winner m = b) H)
    in (n < 3 \<longrightarrow> canPlay a b H)
     \<and> (n = 3 \<longrightarrow> canPlay a b H = (winsA = 2 \<or> winsB = 2) \<and> \<not> (winsA = 2 \<and> winsB = 2))
     \<and> (n > 3 \<longrightarrow> \<not> canPlay a b H))"
proof -
  assume ab: "a \<noteq> b"
  let ?xs = "filter (\<lambda>m. {playerA m, playerB m} = {a, b}) H"
  have le: "length (filter (\<lambda>m. winner m = a) ?xs) + length (filter (\<lambda>m. winner m = b) ?xs)
              \<le> length ?xs"
    using ab by (rule wins_split)
  show ?thesis
    using le unfolding canPlay_def between_filter_eq Let_def filter_filter
    by auto
qed

theorem canPlay_by_record_count_witness:
  "''A'' \<noteq> ''B''
   \<and> length (filter (\<lambda>m. {playerA m, playerB m} = {''A'', ''B''}) []) < 3
   \<and> canPlay ''A'' ''B'' []
   \<and> length (filter (\<lambda>m. {playerA m, playerB m} = {''A'', ''B''}) history_2_1) = 3
   \<and> length (filter (\<lambda>m. {playerA m, playerB m} = {''A'', ''B''} \<and> winner m = ''A'') history_2_1) = 2
   \<and> canPlay ''A'' ''B'' history_2_1
   \<and> length (filter (\<lambda>m. {playerA m, playerB m} = {''A'', ''B''}) history_3_0) = 3
   \<and> length (filter (\<lambda>m. {playerA m, playerB m} = {''A'', ''B''} \<and> winner m = ''A'') history_3_0) = 3
   \<and> \<not> canPlay ''A'' ''B'' history_3_0
   \<and> length (filter (\<lambda>m. {playerA m, playerB m} = {''A'', ''B''}) history_2_2) > 3
   \<and> \<not> canPlay ''A'' ''B'' history_2_2"
  using canPlay_by_record_count [of "''A''" "''B''" "[]"]
    canPlay_by_record_count [of "''A''" "''B''" history_2_1]
    canPlay_by_record_count [of "''A''" "''B''" history_3_0]
    canPlay_by_record_count [of "''A''" "''B''" history_2_2]
  by (simp add: history_2_1_def history_3_0_def history_2_2_def mkMatch_def doubleton_eq_iff)

text \<open>
  C6: \<open>canPlay\<close> is symmetric in its two competitors, for every history.
\<close>

theorem canPlay_symmetric: "canPlay a b H = canPlay b a H"
proof -
  let ?ab = "filter (\<lambda>m. (playerA m = a \<and> playerB m = b) \<or> (playerA m = b \<and> playerB m = a)) H"
  let ?ba = "filter (\<lambda>m. (playerA m = b \<and> playerB m = a) \<or> (playerA m = a \<and> playerB m = b)) H"
  have same: "?ab = ?ba" by (rule between_commute)
  have "canPlay a b H = (length ?ab < 3 \<or> length ?ab = 3 \<and>
          (length (filter (\<lambda>m. winner m = a) ?ab) = 2 \<or> length (filter (\<lambda>m. winner m = b) ?ab) = 2))"
    by (auto simp: canPlay_def Let_def)
  also have "\<dots> = (length ?ba < 3 \<or> length ?ba = 3 \<and>
          (length (filter (\<lambda>m. winner m = b) ?ba) = 2 \<or> length (filter (\<lambda>m. winner m = a) ?ba) = 2))"
    unfolding same by auto
  also have "\<dots> = canPlay b a H"
    by (auto simp: canPlay_def Let_def)
  finally show ?thesis .
qed

section \<open>Sorting and shuffling\<close>

lemma mset_insert_cmp: "mset (insert_cmp cmp x ys) = add_mset x (mset ys)"
  by (induction ys) auto

lemma mset_sort_cmp: "mset (sort_cmp cmp xs) = mset xs"
  unfolding sort_cmp_def by (induction xs) (auto simp: mset_insert_cmp)

lemma set_sort_cmp: "set (sort_cmp cmp xs) = set xs"
  using mset_sort_cmp [of cmp xs] by (metis set_mset_mset)

lemma length_sort_cmp: "length (sort_cmp cmp xs) = length xs"
  using mset_sort_cmp [of cmp xs] by (metis size_mset)

lemma hd_sort_cmp_in: "xs \<noteq> [] \<Longrightarrow> hd (sort_cmp cmp xs) \<in> set xs"
proof -
  assume "xs \<noteq> []"
  then have "sort_cmp cmp xs \<noteq> []"
    using length_sort_cmp [of cmp xs] by auto
  then have "hd (sort_cmp cmp xs) \<in> set (sort_cmp cmp xs)"
    by (rule hd_in_set)
  then show ?thesis by (simp add: set_sort_cmp)
qed

lemma sorted_insert_cmp:
  assumes total: "\<And>x y. \<not> cmp x y \<le> 0 \<Longrightarrow> cmp y x \<le> 0"
    and trans: "\<And>x y z. cmp x y \<le> 0 \<Longrightarrow> cmp y z \<le> 0 \<Longrightarrow> cmp x z \<le> 0"
  shows "sorted_wrt (\<lambda>x y. cmp x y \<le> 0) ys \<Longrightarrow> sorted_wrt (\<lambda>x y. cmp x y \<le> 0) (insert_cmp cmp x ys)"
proof (induction ys)
  case Nil
  then show ?case by simp
next
  case (Cons y ys)
  show ?case
  proof (cases "cmp x y \<le> 0")
    case True
    then have "\<forall>z\<in>set ys. cmp x z \<le> 0"
      using Cons.prems trans by auto
    with True Cons.prems show ?thesis by simp
  next
    case False
    then have yx: "cmp y x \<le> 0" by (rule total)
    have "set (insert_cmp cmp x ys) = insert x (set ys)"
      by (induction ys) auto
    with False yx Cons show ?thesis by auto
  qed
qed

lemma sorted_sort_cmp:
  assumes total: "\<And>x y. \<not> cmp x y \<le> 0 \<Longrightarrow> cmp y x \<le> 0"
    and trans: "\<And>x y z. cmp x y \<le> 0 \<Longrightarrow> cmp y z \<le> 0 \<Longrightarrow> cmp x z \<le> 0"
  shows "sorted_wrt (\<lambda>x y. cmp x y \<le> 0) (sort_cmp cmp xs)"
proof (induction xs)
  case Nil
  show ?case by (simp add: sort_cmp_def)
next
  case (Cons x xs)
  have "sort_cmp cmp (x # xs) = insert_cmp cmp x (sort_cmp cmp xs)"
    by (simp add: sort_cmp_def)
  with Cons show ?case
    using sorted_insert_cmp [of cmp, OF total trans] by simp
qed

lemma mset_shuffle_from: "k < length xs \<Longrightarrow> mset (shuffle_from rnd k xs) = mset xs"
proof (induction k arbitrary: xs)
  case 0
  show ?case by simp
next
  case (Suc k)
  let ?j = "rnd (Suc k) mod (Suc k + 1)"
  have "?j < Suc k + 1" by (rule mod_less_divisor) simp
  then have j: "?j < length xs" using Suc.prems by linarith
  have "mset (xs[Suc k := xs ! ?j, ?j := xs ! Suc k]) = mset xs"
    using Suc.prems j by (simp add: mset_swap)
  moreover have "k < length (xs[Suc k := xs ! ?j, ?j := xs ! Suc k])"
    using Suc.prems by simp
  ultimately show ?case
    using Suc.IH [of "xs[Suc k := xs ! ?j, ?j := xs ! Suc k]"] by (simp add: Let_def)
qed

lemma mset_shuffleArray: "mset (shuffleArray rnd xs) = mset xs"
proof (cases xs)
  case Nil
  then show ?thesis by (simp add: shuffleArray_def)
next
  case (Cons x ys)
  then have "length xs - 1 < length xs" by simp
  then show ?thesis unfolding shuffleArray_def by (rule mset_shuffle_from)
qed

lemma set_shuffleArray: "set (shuffleArray rnd xs) = set xs"
  using mset_shuffleArray [of rnd xs] by (metis set_mset_mset)

section \<open>Properties of the pairing generator\<close>

lemma eligible_not_self:
  "x \<in> set (getEligibleOpponents studentId margin students matches) \<Longrightarrow> id_student x \<noteq> studentId"
  by (auto simp: getEligibleOpponents_def split: option.splits if_splits)

lemma eligible_within_margin:
  "x \<in> set (getEligibleOpponents studentId margin students matches) \<Longrightarrow>
   \<exists>t. find (\<lambda>s. id_student s = studentId) students = Some t \<and> \<bar>score t - score x\<bar> \<le> margin"
proof (cases "find (\<lambda>s. id_student s = studentId) students")
  case None
  assume "x \<in> set (getEligibleOpponents studentId margin students matches)"
  with None show ?thesis by (simp add: getEligibleOpponents_def)
next
  case (Some t)
  assume "x \<in> set (getEligibleOpponents studentId margin students matches)"
  with Some have "\<bar>score t - score x\<bar> \<le> margin"
    by (auto simp: getEligibleOpponents_def isScoreWithinMargin_def split: if_splits)
  with Some show ?thesis by simp
qed

lemma foldl_invariant:
  "I st \<Longrightarrow> (\<And>st x. x \<in> set xs \<Longrightarrow> I st \<Longrightarrow> I (f st x)) \<Longrightarrow> I (foldl f st xs)"
  by (induction xs arbitrary: st) auto

lemma closest_in_set:
  "foldl (\<lambda>best current. if g current < g best then current else best) b xs \<in> set (b # xs)"
  by (induction xs arbitrary: b) auto

lemma recommend_step_emits:
  "emits margin roster matches st s (recommend_step margin roster matches st s)"
proof (cases st)
  case (Pair recs used)
  let ?av = "filter (\<lambda>opponent. id_student opponent \<notin> used)
               (getEligibleOpponents (id_student s) margin roster matches)"
  let ?cmp = "\<lambda>a b. let scoreDiffA = \<bar>score s - score a\<bar>;
                           scoreDiffB = \<bar>score s - score b\<bar>
                       in if scoreDiffA \<noteq> scoreDiffB then scoreDiffA - scoreDiffB else 0"
  show ?thesis
  proof (cases "id_student s \<notin> used \<and> ?av \<noteq> []")
    case True
    then have "hd (sort_cmp ?cmp ?av) \<in> set ?av" by (intro hd_sort_cmp_in) simp
    then show ?thesis using True Pair
      unfolding emits_def recommend_step_def Let_def by auto
  next
    case False
    then show ?thesis using Pair
      unfolding emits_def recommend_step_def Let_def by auto
  qed
qed

lemma optimized_step_emits:
  "emits margin roster matches st s (optimized_step margin roster matches st s)"
proof (cases st)
  case (Pair recs used)
  let ?av = "filter (\<lambda>opponent. id_student opponent \<notin> used)
               (getEligibleOpponents (id_student s) margin roster matches)"
  let ?best = "foldl (\<lambda>best current.
                          let bestDiff = \<bar>score s - score best\<bar>;
                              currentDiff = \<bar>score s - score current\<bar>
                          in if currentDiff < bestDiff then current else best)
                        (hd ?av) (tl ?av)"
  show ?thesis
  proof (cases "id_student s \<notin> used \<and> ?av \<noteq> []")
    case True
    have "?best \<in> set (hd ?av # tl ?av)"
      unfolding Let_def by (rule closest_in_set)
    then have "?best \<in> set ?av" using True by simp
    then show ?thesis using True Pair
      unfolding emits_def optimized_step_def Let_def by auto
  next
    case False
    then show ?thesis using Pair
      unfolding emits_def optimized_step_def Let_def by auto
  qed
qed

lemma emits_disjoint_round:
  "emits margin roster matches st s st' \<Longrightarrow> disjoint_round st \<Longrightarrow> disjoint_round st'"
proof -
  assume e: "emits margin roster matches st s st'" and d: "disjoint_round st"
  from e consider "st' = st"
    | b where "b \<in> set (getEligibleOpponents (id_student s) margin roster matches)"
        "id_student s \<notin> snd st" "id_student b \<notin> snd st"
        "st' = (fst st @ [\<lparr>playerA_rec = s, playerB_rec = b,
                               scoreDifference = \<bar>score s - score b\<bar>\<rparr>],
                insert (id_student b) (insert (id_student s) (snd st)))"
    unfolding emits_def by blast
  then show ?thesis
  proof cases
    case 1
    with d show ?thesis by simp
  next
    case 2
    have ne: "id_student b \<noteq> id_student s" using 2(1) by (rule eligible_not_self)
    have ids: "paired_ids (fst st') = paired_ids (fst st) @ [id_student s, id_student b]"
      using 2(4) by (simp add: paired_ids_def)
    have "id_student s \<notin> set (paired_ids (fst st))" "id_student b \<notin> set (paired_ids (fst st))"
      using d 2(2,3) unfolding disjoint_round_def by blast+
    then have "distinct (paired_ids (fst st'))"
      using d ne unfolding ids disjoint_round_def by auto
    moreover have "set (paired_ids (fst st')) \<subseteq> snd st'"
      using d 2(4) unfolding ids disjoint_round_def by auto
    ultimately show ?thesis by (simp add: disjoint_round_def)
  qed
qed

lemma greedy_disjoint:
  assumes "\<And>st x. emits margin roster matches st x (step st x)"
  shows "distinct (paired_ids (fst (foldl step ([], {}) xs)))"
proof -
  have "disjoint_round (foldl step ([], {}) xs)"
  proof (rule foldl_invariant)
    show "disjoint_round ([], {})" by (simp add: disjoint_round_def paired_ids_def)
  next
    fix st x assume "disjoint_round st"
    with assms [of st x] show "disjoint_round (step st x)" by (rule emits_disjoint_round)
  qed
  then show ?thesis by (simp add: disjoint_round_def)
qed

text \<open>
  C2: whatever the pool, the history, the margin and the draws of the shuffle, no
  competitor id occurs twice among the players of the pairings that
  \<open>getMatchRecommendations\<close> returns, and none occurs twice among those of
  \<open>getOptimizedMatchRecommendations\<close>.
\<close>

theorem rounds_pair_each_id_once:
  "distinct (paired_ids (getMatchRecommendations students margin rnd roster matches))
   \<and> distinct (paired_ids (getOptimizedMatchRecommendations students margin roster matches))"
proof
  show "distinct (paired_ids (getMatchRecommendations students margin rnd roster matches))"
    unfolding getMatchRecommendations_def
    using greedy_disjoint [of margin roster matches "recommend_step margin roster matches", OF recommend_step_emits]
    by (simp add: paired_ids_def)
next
  show "distinct (paired_ids (getOptimizedMatchRecommendations students margin roster matches))"
    unfolding getOptimizedMatchRecommendations_def Let_def
    using greedy_disjoint [of margin roster matches "optimized_step margin roster matches", OF optimized_step_emits]
    by (simp add: paired_ids_def)
qed

lemma find_distinct_id:
  "distinct (map f xs) \<Longrightarrow> x \<in> set xs \<Longrightarrow> find (\<lambda>s. f s = f x) xs = Some x"
  by (induction xs) auto

lemma emits_sound:
  "emits margin roster matches st s st' \<Longrightarrow> s \<in> S \<Longrightarrow>
   list_all (sound_pairing S margin roster matches) (fst st) \<Longrightarrow>
   list_all (sound_pairing S margin roster matches) (fst st')"
  unfolding emits_def by (auto simp: sound_pairing_def)

lemma greedy_sound:
  assumes "\<And>st x. emits margin roster matches st x (step st x)"
  shows "list_all (sound_pairing (set xs) margin roster matches) (fst (foldl step ([], {}) xs))"
proof (rule foldl_invariant)
  show "list_all (sound_pairing (set xs) margin roster matches) (fst ([], {}))" by simp
next
  fix st :: pairing_state and x
  assume "x \<in> set xs" "list_all (sound_pairing (set xs) margin roster matches) (fst st)"
  with assms [of st x] show "list_all (sound_pairing (set xs) margin roster matches) (fst (step st x))"
    by (rule emits_sound)
qed

lemma sound_pairing_margin:
  assumes "distinct (map id_student pool)" and "sound_pairing (set pool) margin pool matches r"
  shows "scoreDifference r \<le> margin"
proof -
  from assms(2) have a: "playerA_rec r \<in> set pool"
    and b: "playerB_rec r \<in> set (getEligibleOpponents (id_student (playerA_rec r)) margin pool matches)"
    and d: "scoreDifference r = \<bar>score (playerA_rec r) - score (playerB_rec r)\<bar>"
    by (simp_all add: sound_pairing_def)
  from eligible_within_margin [OF b] obtain t where
    t: "find (\<lambda>s. id_student s = id_student (playerA_rec r)) pool = Some t"
       "\<bar>score t - score (playerB_rec r)\<bar> \<le> margin" by blast
  from find_distinct_id [OF assms(1) a] t(1) have "t = playerA_rec r" by simp
  with t(2) d show ?thesis by simp
qed

lemma round_stale:
  "getMatchRecommendations stale_pool 1 (\<lambda>i. i) stale_roster []
     = [\<lparr>playerA_rec = mkStudent ''1'' ''Ann'' 3, playerB_rec = mkStudent ''2'' ''Bob'' 1, scoreDifference = 2\<rparr>]"
  by code_simp

lemma round_twin:
  "getMatchRecommendations twin_pool 1 (\<lambda>i. 0) twin_pool []
     = [\<lparr>playerA_rec = mkStudent ''x'' ''Bob'' 4, playerB_rec = mkStudent ''y'' ''Cy'' 0, scoreDifference = 4\<rparr>]"
  by code_simp

text \<open>
  C3 as stated fails on the margin. The margin test reads the score that the roster holds
  under the id of \<open>playerA\<close>, and \<open>scoreDifference\<close> reads the score of the pool entry.
  A pool whose entry for Ann has another score than the roster's gives a pairing of
  difference 2 at margin 1; a pool, also the roster, in which two entries share an id
  gives one of difference 4 at margin 1.
\<close>

theorem emitted_pairings_within_margin_counterexample:
  "\<not> (\<forall>r \<in> set (getMatchRecommendations stale_pool 1 (\<lambda>i. i) stale_roster []). scoreDifference r \<le> 1)
   \<and> \<not> (\<forall>r \<in> set (getMatchRecommendations twin_pool 1 (\<lambda>i. 0) twin_pool []). scoreDifference r \<le> 1)"
  by (simp add: round_stale round_twin)

text \<open>
  C3, amended: for every pool, roster, history and margin, every pairing that
  \<open>getMatchRecommendations\<close> emits has
  \<open>scoreDifference = \<bar>playerA.score - playerB.score\<bar>\<close>, its two players pass
  \<open>canPlay\<close> on the history of the call, and the score of \<open>playerB\<close> is within the
  margin of the score that the roster holds under the id of \<open>playerA\<close>. When the pool
  has unique ids and is the roster the opponent finder reads,
  \<open>scoreDifference \<le> margin\<close>.
\<close>

theorem emitted_pairings_within_margin:
  "(\<forall>r \<in> set (getMatchRecommendations pool margin rnd roster matches).
      scoreDifference r = \<bar>score (playerA_rec r) - score (playerB_rec r)\<bar>
      \<and> canPlay (id_student (playerA_rec r)) (id_student (playerB_rec r)) matches
      \<and> (\<exists>t. find (\<lambda>s. id_student s = id_student (playerA_rec r)) roster = Some t
             \<and> \<bar>score t - score (playerB_rec r)\<bar> \<le> margin))
   \<and> (distinct (map id_student pool) \<longrightarrow>
       (\<forall>r \<in> set (getMatchRecommendations pool margin rnd pool matches).
          scoreDifference r \<le> margin))"
proof (intro conjI impI ballI)
  fix r
  assume r: "r \<in> set (getMatchRecommendations pool margin rnd roster matches)"
  have "list_all (sound_pairing (set (shuffleArray rnd pool)) margin roster matches)
          (fst (foldl (recommend_step margin roster matches) ([], {}) (shuffleArray rnd pool)))"
    using recommend_step_emits by (rule greedy_sound)
  with r have s: "sound_pairing (set pool) margin roster matches r"
    unfolding getMatchRecommendations_def set_shuffleArray
    by (auto simp: list_all_iff split: if_splits)
  from s show "scoreDifference r = \<bar>score (playerA_rec r) - score (playerB_rec r)\<bar>"
    by (simp add: sound_pairing_def)
  from s show "canPlay (id_student (playerA_rec r)) (id_student (playerB_rec r)) matches"
    by (simp add: sound_pairing_def)
  from s have "playerB_rec r \<in> set (getEligibleOpponents (id_student (playerA_rec r)) margin roster matches)"
    by (simp add: sound_pairing_def)
  then show "\<exists>t. find (\<lambda>s. id_student s = id_student (playerA_rec r)) roster = Some t
             \<and> \<bar>score t - score (playerB_rec r)\<bar> \<le> margin"
    by (rule eligible_within_margin)
next
  fix r
  assume dist: "distinct (map id_student pool)"
    and r: "r \<in> set (getMatchRecommendations pool margin rnd pool matches)"
  have "list_all (sound_pairing (set (shuffleArray rnd pool)) margin pool matches)
          (fst (foldl (recommend_step margin pool matches) ([], {}) (shuffleArray rnd pool)))"
    using recommend_step_emits by (rule greedy_sound)
  with r have s: "sound_pairing (set pool) margin pool matches r"
    unfolding getMatchRecommendations_def set_shuffleArray
    by (auto simp: list_all_iff split: if_splits)
  from dist s show "scoreDifference r \<le> margin" by (rule sound_pairing_margin)
qed

lemma round_0_1_5:
  "getMatchRecommendations pool_0_1_5 1 (\<lambda>i. i) pool_0_1_5 []
     = [\<lparr>playerA_rec = mkStudent ''1'' ''Ann'' 0, playerB_rec = mkStudent ''2'' ''Bob'' 1, scoreDifference = 1\<rparr>]"
  by code_simp

theorem emitted_pairings_within_margin_witness:
  "distinct (map id_student pool_0_1_5)
   \<and> length (getMatchRecommendations pool_0_1_5 1 (\<lambda>i. i) pool_0_1_5 []) = 1
   \<and> list_all (\<lambda>r. scoreDifference r = \<bar>score (playerA_rec r) - score (playerB_rec r)\<bar>
                    \<and> scoreDifference r \<le> 1
                    \<and> canPlay (id_student (playerA_rec r)) (id_student (playerB_rec r)) [])
        (getMatchRecommendations pool_0_1_5 1 (\<lambda>i. i) pool_0_1_5 [])
   \<and> length (getMatchRecommendations stale_pool 1 (\<lambda>i. i) stale_roster []) = 1
   \<and> list_all (\<lambda>r. scoreDifference r = \<bar>score (playerA_rec r) - score (playerB_rec r)\<bar>
                    \<and> canPlay (id_student (playerA_rec r)) (id_student (playerB_rec r)) []
                    \<and> find (\<lambda>s. id_student s = id_student (playerA_rec r)) stale_roster
                        = Some (mkStudent ''1'' ''Ann'' 0)
                    \<and> \<bar>score (mkStudent ''1'' ''Ann'' 0) - score (playerB_rec r)\<bar> \<le> 1)
        (getMatchRecommendations stale_pool 1 (\<lambda>i. i) stale_roster [])"
proof -
  have d: "distinct (map id_student pool_0_1_5)"
    by (simp add: pool_0_1_5_def mkStudent_def)
  have f: "find (\<lambda>s. id_student s = ''1'') stale_roster = Some (mkStudent ''1'' ''Ann'' 0)"
    by (simp add: stale_roster_def mkStudent_def)
  from emitted_pairings_within_margin [of pool_0_1_5 1 "\<lambda>i. i" pool_0_1_5 "[]"]
    emitted_pairings_within_margin [of stale_pool 1 "\<lambda>i. i" stale_roster "[]"]
  show ?thesis using d f
    by (simp add: list_all_iff round_0_1_5 round_stale mkStudent_def)
qed

section \<open>Properties of the stats aggregator\<close>

lemma count_wins_losses:
  "foldl (\<lambda>(w, l) m.
            if playerA m = sid \<or> playerB m = sid then
              (if winner m = sid then (w + 1, l) else (w, l + 1))
            else (w, l)) (w0, l0) H
   = (w0 + length (filter (\<lambda>m. (playerA m = sid \<or> playerB m = sid) \<and> winner m = sid) H),
      l0 + length (filter (\<lambda>m. (playerA m = sid \<or> playerB m = sid) \<and> winner m \<noteq> sid) H))"
  by (induction H arbitrary: w0 l0) auto

lemma filter_split_length:
  "length (filter (\<lambda>m. P m \<and> Q m) H) + length (filter (\<lambda>m. P m \<and> \<not> Q m) H) = length (filter P H)"
  by (induction H) auto

lemma stats_wins: "wins (calculateStudentStats sid H)
   = length (filter (\<lambda>m. (playerA m = sid \<or> playerB m = sid) \<and> winner m = sid) H)"
  by (simp add: calculateStudentStats_def count_wins_losses Let_def)

lemma stats_losses: "losses (calculateStudentStats sid H)
   = length (filter (\<lambda>m. (playerA m = sid \<or> playerB m = sid) \<and> winner m \<noteq> sid) H)"
  by (simp add: calculateStudentStats_def count_wins_losses Let_def)

lemma stats_total: "totalMatches (calculateStudentStats sid H)
   = length (filter (\<lambda>m. playerA m = sid \<or> playerB m = sid) H)"
  by (simp add: calculateStudentStats_def count_wins_losses Let_def filter_split_length)

lemma stats_total_sum: "totalMatches (calculateStudentStats sid H)
   = wins (calculateStudentStats sid H) + losses (calculateStudentStats sid H)"
  by (simp add: calculateStudentStats_def count_wins_losses Let_def)

lemma stats_winRate: "winRate (calculateStudentStats sid H)
   = (if totalMatches (calculateStudentStats sid H) = 0 then 0
      else of_nat (wins (calculateStudentStats sid H)) / of_nat (totalMatches (calculateStudentStats sid H)) * 100)"
  by (simp add: calculateStudentStats_def count_wins_losses Let_def)

text \<open>
  C10: for every student id and history, the stats satisfy
  \<open>wins + losses = totalMatches\<close>, and \<open>totalMatches\<close> is the number of records
  in which the id is \<open>playerA\<close> or \<open>playerB\<close>; every such record whose winner is
  not the id is a loss. A record whose winner is neither of its players is a loss for both.
\<close>

theorem stats_count_every_record:
  "wins (calculateStudentStats sid H) + losses (calculateStudentStats sid H)
     = totalMatches (calculateStudentStats sid H)
   \<and> totalMatches (calculateStudentStats sid H)
     = length (filter (\<lambda>m. playerA m = sid \<or> playerB m = sid) H)
   \<and> losses (calculateStudentStats sid H)
     = length (filter (\<lambda>m. (playerA m = sid \<or> playerB m = sid) \<and> winner m \<noteq> sid) H)
   \<and> (winner m \<noteq> playerA m \<and> winner m \<noteq> playerB m \<longrightarrow>
        losses (calculateStudentStats (playerA m) [m]) = 1
      \<and> losses (calculateStudentStats (playerB m) [m]) = 1)"
proof (intro conjI impI)
  show "wins (calculateStudentStats sid H) + losses (calculateStudentStats sid H)
          = totalMatches (calculateStudentStats sid H)"
    by (simp add: stats_total_sum)
  show "totalMatches (calculateStudentStats sid H)
          = length (filter (\<lambda>m. playerA m = sid \<or> playerB m = sid) H)"
    by (rule stats_total)
  show "losses (calculateStudentStats sid H)
          = length (filter (\<lambda>m. (playerA m = sid \<or> playerB m = sid) \<and> winner m \<noteq> sid) H)"
    by (rule stats_losses)
next
  assume "winner m \<noteq> playerA m \<and> winner m \<noteq> playerB m"
  then show "losses (calculateStudentStats (playerA m) [m]) = 1"
    by (simp add: stats_losses)
next
  assume "winner m \<noteq> playerA m \<and> winner m \<noteq> playerB m"
  then show "losses (calculateStudentStats (playerB m) [m]) = 1"
    by (simp add: stats_losses)
qed

theorem stats_count_every_record_witness:
  "winner malformed_record \<noteq> playerA malformed_record
   \<and> winner malformed_record \<noteq> playerB malformed_record
   \<and> losses (calculateStudentStats ''A'' [malformed_record]) = 1
   \<and> losses (calculateStudentStats ''B'' [malformed_record]) = 1
   \<and> wins (calculateStudentStats ''B'' history_2_1) = 1
   \<and> losses (calculateStudentStats ''B'' history_2_1) = 2
   \<and> totalMatches (calculateStudentStats ''B'' history_2_1) = 3"
  using stats_count_every_record [of "''B''" history_2_1 malformed_record]
  by (simp add: malformed_record_def history_2_1_def mkMatch_def)

lemma leaderboard_cmp_le:
  "(leaderboard_cmp collate a b \<le> 0) = ranks_before collate a b"
  unfolding leaderboard_cmp_def ranks_before_def localeCompare_def
  by (auto simp: not_less)

lemma ranks_before_total: "\<not> ranks_before collate a b \<Longrightarrow> ranks_before collate b a"
  unfolding ranks_before_def by auto

lemma ranks_before_trans:
  "ranks_before collate a b \<Longrightarrow> ranks_before collate b c \<Longrightarrow> ranks_before collate a c"
  unfolding ranks_before_def by auto

lemma sorted_getLeaderboard:
  "sorted_wrt (ranks_before collate) (getLeaderboard collate students H)"
proof -
  have "sorted_wrt (\<lambda>x y. leaderboard_cmp collate x y \<le> 0) (getLeaderboard collate students H)"
    unfolding getLeaderboard_def
    by (rule sorted_sort_cmp) (auto simp: leaderboard_cmp_le intro: ranks_before_total ranks_before_trans)
  then show ?thesis by (simp add: leaderboard_cmp_le)
qed

text \<open>
  C8: the leaderboard holds one entry per student of the pool; each entry's wins and
  total are counted from the records of its student, its \<open>winRate\<close> is
  \<open>wins / totalMatches * 100\<close>, or \<open>0\<close> when \<open>totalMatches\<close> is \<open>0\<close>; and
  the entries are sorted by descending score, then descending \<open>winRate\<close>, then
  descending \<open>totalMatches\<close>, then ascending name.
\<close>

theorem leaderboard_order_and_rates:
  "sorted_wrt (ranks_before collate) (getLeaderboard collate students H)
   \<and> mset (map student (getLeaderboard collate students H)) = mset students
   \<and> (\<forall>e \<in> set (getLeaderboard collate students H).
         wins e = length (filter (\<lambda>m. (playerA m = id_student (student e) \<or> playerB m = id_student (student e))
                                        \<and> winner m = id_student (student e)) H)
       \<and> totalMatches e = length (filter (\<lambda>m. playerA m = id_student (student e)
                                               \<or> playerB m = id_student (student e)) H)
       \<and> winRate e = (if totalMatches e = 0 then 0
                        else of_nat (wins e) / of_nat (totalMatches e) * 100))"
proof (intro conjI ballI)
  show "sorted_wrt (ranks_before collate) (getLeaderboard collate students H)"
    by (rule sorted_getLeaderboard)
  let ?entries = "map (\<lambda>s. let stats = calculateStudentStats (id_student s) H
                            in \<lparr>wins = wins stats, losses = losses stats,
                                totalMatches = totalMatches stats,
                                winRate = winRate stats, student = s\<rparr>) students"
  have "map student ?entries = students"
    by (induction students) (simp_all add: Let_def)
  moreover have "mset (map student (sort_cmp (leaderboard_cmp collate) ?entries))
                   = mset (map student ?entries)"
    by (simp only: mset_map mset_sort_cmp)
  ultimately show "mset (map student (getLeaderboard collate students H)) = mset students"
    unfolding getLeaderboard_def by simp
next
  fix e assume "e \<in> set (getLeaderboard collate students H)"
  then obtain s where e: "e = \<lparr>wins = wins (calculateStudentStats (id_student s) H),
                                  losses = losses (calculateStudentStats (id_student s) H),
                                  totalMatches = totalMatches (calculateStudentStats (id_student s) H),
                                  winRate = winRate (calculateStudentStats (id_student s) H),
                                  student = s\<rparr>"
    unfolding getLeaderboard_def by (auto simp: set_sort_cmp Let_def)
  show "wins e = length (filter (\<lambda>m. (playerA m = id_student (student e) \<or> playerB m = id_student (student e))
                                        \<and> winner m = id_student (student e)) H)"
    unfolding e by (simp add: stats_wins)
  show "totalMatches e = length (filter (\<lambda>m. playerA m = id_student (student e)
                                               \<or> playerB m = id_student (student e)) H)"
    unfolding e by (simp add: stats_total)
  show "winRate e = (if totalMatches e = 0 then 0
                        else of_nat (wins e) / of_nat (totalMatches e) * 100)"
    unfolding e using stats_winRate [of "id_student s" H] by simp
qed

lemma leaderboard_2_1:
  "getLeaderboard (\<lambda>n. n) leaders_2_1 history_2_1
     = [\<lparr>wins = 2, losses = 1, totalMatches = 3, winRate = 200 / 3, student = mkStudent ''A'' ''Ann'' 10\<rparr>,
        \<lparr>wins = 1, losses = 2, totalMatches = 3, winRate = 100 / 3, student = mkStudent ''B'' ''Bob'' 10\<rparr>,
        \<lparr>wins = 0, losses = 0, totalMatches = 0, winRate = 0, student = mkStudent ''C'' ''Cy'' 7\<rparr>]"
  by code_simp

theorem leaderboard_order_and_rates_witness:
  "map (name \<circ> student) (getLeaderboard (\<lambda>n. n) leaders_2_1 history_2_1) = [''Ann'', ''Bob'', ''Cy'']
   \<and> map winRate (getLeaderboard (\<lambda>n. n) leaders_2_1 history_2_1) = [200 / 3, 100 / 3, 0]
   \<and> sorted_wrt (ranks_before (\<lambda>n. n)) (getLeaderboard (\<lambda>n. n) leaders_2_1 history_2_1)"
proof -
  have "sorted_wrt (ranks_before (\<lambda>n. n)) (getLeaderboard (\<lambda>n. n) leaders_2_1 history_2_1)"
    using leaderboard_order_and_rates [of "\<lambda>n. n" leaders_2_1 history_2_1] by (rule conjunct1)
  moreover have "map (name \<circ> student) (getLeaderboard (\<lambda>n. n) leaders_2_1 history_2_1)
                   = [''Ann'', ''Bob'', ''Cy'']"
    by (simp add: leaderboard_2_1 mkStudent_def)
  moreover have "map winRate (getLeaderboard (\<lambda>n. n) leaders_2_1 history_2_1) = [200 / 3, 100 / 3, 0]"
    by (simp add: leaderboard_2_1)
  ultimately show ?thesis by blast
qed

section \<open>Properties of the pairing statistics and of the opponent finder\<close>

lemma inner_totals:
  "foldl (\<lambda>(t, n) opponent. (t + \<bar>score s - score opponent\<bar>, Suc n)) (t0, n0) os
     = (t0 + sum_list (map (\<lambda>opponent. \<bar>score s - score opponent\<bar>) os), n0 + length os)"
  by (induction os arbitrary: t0 n0) auto

lemma stats_step_totals:
  "stats_step margin roster H (a, b, c, d) s
     = (a + (if getEligibleOpponents (id_student s) margin roster H = [] then 0 else 1),
        b + length (getEligibleOpponents (id_student s) margin roster H),
        c + sum_list (map (\<lambda>opponent. \<bar>score s - score opponent\<bar>)
                       (getEligibleOpponents (id_student s) margin roster H)),
        d + length (getEligibleOpponents (id_student s) margin roster H))"
  by (simp add: stats_step_def inner_totals Let_def)

lemma stats_loop_totals:
  "foldl (stats_step margin roster H) (a, b, c, d) xs
     = (a + length (filter (\<lambda>s. getEligibleOpponents (id_student s) margin roster H \<noteq> []) xs),
        b + sum_list (map (\<lambda>s. length (getEligibleOpponents (id_student s) margin roster H)) xs),
        c + sum_list (map (\<lambda>s. sum_list (map (\<lambda>opponent. \<bar>score s - score opponent\<bar>)
                       (getEligibleOpponents (id_student s) margin roster H))) xs),
        d + sum_list (map (\<lambda>s. length (getEligibleOpponents (id_student s) margin roster H)) xs))"
proof (induction xs arbitrary: a b c d)
  case Nil
  show ?case by simp
next
  case (Cons x xs)
  show ?case
    by (simp only: foldl_Cons stats_step_totals Cons.IH) simp
qed

lemma length_directed_pairs:
  "length (directed_pairs pool margin roster H)
     = sum_list (map (\<lambda>s. length (getEligibleOpponents (id_student s) margin roster H)) pool)"
  by (simp add: directed_pairs_def length_concat comp_def)

lemma sum_directed_pairs:
  "sum_list (map (\<lambda>(s, opponent). \<bar>score s - score opponent\<bar>) (directed_pairs pool margin roster H))
     = sum_list (map (\<lambda>s. sum_list (map (\<lambda>opponent. \<bar>score s - score opponent\<bar>)
                       (getEligibleOpponents (id_student s) margin roster H))) pool)"
  unfolding directed_pairs_def by (induction pool) (simp_all add: comp_def)

lemma small_pool_no_pairs:
  "length pool < 2 \<Longrightarrow> getEligibleOpponents (id_student s) margin pool H = [] \<or> s \<notin> set pool"
proof (cases pool)
  case Nil
  then show ?thesis by simp
next
  case (Cons x xs)
  assume "length pool < 2"
  with Cons have "pool = [x]" by (cases xs) auto
  then show ?thesis by (auto simp: getEligibleOpponents_def)
qed

lemma small_pool_directed_pairs: "length pool < 2 \<Longrightarrow> directed_pairs pool margin pool H = []"
  using small_pool_no_pairs [of pool _ margin H] by (auto simp: directed_pairs_def)

lemma stats_small_pool:
  "length pool < 2 \<Longrightarrow>
   getMatchRecommendationStats pool margin roster H
     = \<lparr>totalStudents = length pool, studentsWithOpponents = 0,
        possibleMatches = 0, averageScoreDifference = 0\<rparr>"
  by (simp add: getMatchRecommendationStats_def)

lemma stats_possibleMatches:
  assumes "2 \<le> length pool \<or> roster = pool"
  shows "possibleMatches (getMatchRecommendationStats pool margin roster H)
           = length (directed_pairs pool margin roster H)"
proof (cases "length pool < 2")
  case True
  with assms have "roster = pool" by auto
  with True show ?thesis by (simp add: stats_small_pool small_pool_directed_pairs)
next
  case False
  then show ?thesis
    by (simp add: getMatchRecommendationStats_def stats_loop_totals length_directed_pairs)
qed

lemma stats_average:
  assumes "2 \<le> length pool \<or> roster = pool"
  shows "averageScoreDifference (getMatchRecommendationStats pool margin roster H)
     = (if directed_pairs pool margin roster H = [] then 0
        else of_int (sum_list (map (\<lambda>(s, opponent). \<bar>score s - score opponent\<bar>)
                                (directed_pairs pool margin roster H)))
             / of_nat (length (directed_pairs pool margin roster H)))"
proof (cases "length pool < 2")
  case True
  with assms have "roster = pool" by auto
  with True show ?thesis by (simp add: stats_small_pool small_pool_directed_pairs)
next
  case False
  have "(directed_pairs pool margin roster H = []) = (length (directed_pairs pool margin roster H) = 0)"
    by simp
  then show ?thesis using False
    by (simp add: getMatchRecommendationStats_def stats_loop_totals sum_directed_pairs
        length_directed_pairs del: length_0_conv)
qed

lemma getHeadToHead_between: "getHeadToHead a b H = getMatchesBetweenStudents a b H"
proof -
  have copy: "(\<lambda>m::Match. \<lparr>id_match = id_match m, playerA = playerA m, playerB = playerB m,
                        winner = winner m, loser = loser m, date = date m\<rparr>) = (\<lambda>m. m)"
    by (rule ext) simp
  show ?thesis unfolding getHeadToHead_def copy by simp
qed

lemma rematch_implies_canPlay: "canHaveBestOfThreeRematch a b H \<Longrightarrow> canPlay a b H"
  by (simp add: canHaveBestOfThreeRematch_def getHeadToHead_between getMatchesBetweenStudents_def
      canPlay_def Let_def split: if_splits)

lemma eligible_iff:
  "x \<in> set (getEligibleOpponents sid margin students H) \<longleftrightarrow>
     (\<exists>t. find (\<lambda>s. id_student s = sid) students = Some t
        \<and> x \<in> set students \<and> id_student x \<noteq> sid
        \<and> \<bar>score t - score x\<bar> \<le> margin \<and> canPlay sid (id_student x) H)"
proof (cases "find (\<lambda>s. id_student s = sid) students")
  case None
  then show ?thesis by (simp add: getEligibleOpponents_def)
next
  case (Some t)
  then show ?thesis
    using rematch_implies_canPlay [of sid "id_student x" H]
    by (auto simp: getEligibleOpponents_def isScoreWithinMargin_def)
qed

lemma eligible_symmetric:
  assumes d: "distinct (map id_student pool)" and s: "s \<in> set pool"
    and x: "x \<in> set (getEligibleOpponents (id_student s) margin pool H)"
  shows "s \<in> set (getEligibleOpponents (id_student x) margin pool H)"
proof -
  from x obtain t where t: "find (\<lambda>u. id_student u = id_student s) pool = Some t"
    and xp: "x \<in> set pool" and ne: "id_student x \<noteq> id_student s"
    and m: "\<bar>score t - score x\<bar> \<le> margin" and c: "canPlay (id_student s) (id_student x) H"
    unfolding eligible_iff by blast
  from find_distinct_id [OF d s] t have "t = s" by simp
  with m have m': "\<bar>score x - score s\<bar> \<le> margin" by simp
  have "find (\<lambda>u. id_student u = id_student x) pool = Some x"
    using d xp by (rule find_distinct_id)
  moreover have "canPlay (id_student x) (id_student s) H"
    using c by (simp add: canPlay_commute)
  ultimately show ?thesis
    unfolding eligible_iff using s ne m' by auto
qed

lemma distinct_tagged_concat:
  "distinct xs \<Longrightarrow> (\<And>x. distinct (f x)) \<Longrightarrow> distinct (concat (map (\<lambda>x. map (Pair x) (f x)) xs))"
  by (induction xs) (auto simp: distinct_map inj_on_def)

lemma directed_pairs_both_sides:
  assumes d: "distinct (map id_student pool)"
  shows "distinct (directed_pairs pool margin pool H)"
    and "(a, b) \<in> set (directed_pairs pool margin pool H) \<Longrightarrow>
         (b, a) \<in> set (directed_pairs pool margin pool H)"
proof -
  from d have dp: "distinct pool" by (simp add: distinct_map)
  have "\<And>sid. distinct (getEligibleOpponents sid margin pool H)"
    using dp by (simp add: getEligibleOpponents_def split: option.splits)
  with dp show "distinct (directed_pairs pool margin pool H)"
    unfolding directed_pairs_def by (intro distinct_tagged_concat) auto
next
  assume "(a, b) \<in> set (directed_pairs pool margin pool H)"
  then have a: "a \<in> set pool" and b: "b \<in> set (getEligibleOpponents (id_student a) margin pool H)"
    by (auto simp: directed_pairs_def)
  from eligible_symmetric [OF d a b] have "a \<in> set (getEligibleOpponents (id_student b) margin pool H)" .
  moreover from b have "b \<in> set pool" unfolding eligible_iff by blast
  ultimately show "(b, a) \<in> set (directed_pairs pool margin pool H)"
    by (auto simp: directed_pairs_def)
qed

lemma stats_lone:
  "getMatchRecommendationStats lone_pool 1 pool_0_1_5 []
     = \<lparr>totalStudents = 1, studentsWithOpponents = 0, possibleMatches = 0, averageScoreDifference = 0\<rparr>"
  by code_simp

lemma eligible_lone:
  "map (\<lambda>s. length (getEligibleOpponents (id_student s) 1 pool_0_1_5 [])) lone_pool = [1]"
  by code_simp

text \<open>
  C7 as stated fails on a pool of one competitor that the roster gives an eligible
  opponent: the statistics are zero, and the sum of the numbers of eligible opponents is 1.
\<close>

theorem pairing_stats_totals_counterexample:
  "possibleMatches (getMatchRecommendationStats lone_pool 1 pool_0_1_5 [])
     \<noteq> sum_list (map (\<lambda>s. length (getEligibleOpponents (id_student s) 1 pool_0_1_5 [])) lone_pool)"
  by (simp add: stats_lone eligible_lone)

text \<open>
  C7, amended: on the empty pool the statistics are all zero, and on a pool of fewer than
  two competitors all but \<open>totalStudents\<close> are zero, whatever the roster. On a pool of
  at least two competitors, or when the pool is the roster, \<open>possibleMatches\<close> is the
  sum over the competitors of the pool of the number of eligible opponents that the
  roster gives for their id, that is the number of directed pairs, and
  \<open>averageScoreDifference\<close> is the mean over the directed pairs of the difference
  between the score of the pool's competitor and the score of the roster's opponent,
  \<open>0\<close> when there is none. When the pool is the roster and has unique ids, every
  directed pair is listed once and so is its reverse: an unordered eligible pair counts
  twice.
\<close>

theorem pairing_stats_totals:
  "getMatchRecommendationStats [] margin roster H
     = \<lparr>totalStudents = 0, studentsWithOpponents = 0, possibleMatches = 0, averageScoreDifference = 0\<rparr>
   \<and> (length pool < 2 \<longrightarrow>
        getMatchRecommendationStats pool margin roster H
          = \<lparr>totalStudents = length pool, studentsWithOpponents = 0,
             possibleMatches = 0, averageScoreDifference = 0\<rparr>)
   \<and> (2 \<le> length pool \<or> roster = pool \<longrightarrow>
        possibleMatches (getMatchRecommendationStats pool margin roster H)
          = sum_list (map (\<lambda>s. length (getEligibleOpponents (id_student s) margin roster H)) pool)
      \<and> possibleMatches (getMatchRecommendationStats pool margin roster H)
          = length (directed_pairs pool margin roster H)
      \<and> averageScoreDifference (getMatchRecommendationStats pool margin roster H)
          = (if directed_pairs pool margin roster H = [] then 0
             else of_int (sum_list (map (\<lambda>(s, opponent). \<bar>score s - score opponent\<bar>)
                                     (directed_pairs pool margin roster H)))
                  / of_nat (length (directed_pairs pool margin roster H))))
   \<and> (distinct (map id_student pool) \<longrightarrow>
        distinct (directed_pairs pool margin pool H)
        \<and> (\<forall>(a, b) \<in> set (directed_pairs pool margin pool H).
              (b, a) \<in> set (directed_pairs pool margin pool H)))"
proof (intro conjI impI)
  show "getMatchRecommendationStats [] margin roster H
     = \<lparr>totalStudents = 0, studentsWithOpponents = 0, possibleMatches = 0, averageScoreDifference = 0\<rparr>"
    by (simp add: getMatchRecommendationStats_def)
next
  assume "length pool < 2"
  then show "getMatchRecommendationStats pool margin roster H
          = \<lparr>totalStudents = length pool, studentsWithOpponents = 0,
             possibleMatches = 0, averageScoreDifference = 0\<rparr>"
    by (rule stats_small_pool)
next
  assume c: "2 \<le> length pool \<or> roster = pool"
  then show "possibleMatches (getMatchRecommendationStats pool margin roster H)
          = sum_list (map (\<lambda>s. length (getEligibleOpponents (id_student s) margin roster H)) pool)"
    by (simp only: stats_possibleMatches length_directed_pairs)
  from c show "possibleMatches (getMatchRecommendationStats pool margin roster H)
          = length (directed_pairs pool margin roster H)"
    by (rule stats_possibleMatches)
  from c show "averageScoreDifference (getMatchRecommendationStats pool margin roster H)
          = (if directed_pairs pool margin roster H = [] then 0
             else of_int (sum_list (map (\<lambda>(s, opponent). \<bar>score s - score opponent\<bar>)
                                     (directed_pairs pool margin roster H)))
                  / of_nat (length (directed_pairs pool margin roster H)))"
    by (rule stats_average)
next
  assume "distinct (map id_student pool)"
  then show "distinct (directed_pairs pool margin pool H)" by (rule directed_pairs_both_sides)
next
  assume d: "distinct (map id_student pool)"
  show "\<forall>(a, b) \<in> set (directed_pairs pool margin pool H).
              (b, a) \<in> set (directed_pairs pool margin pool H)"
    using directed_pairs_both_sides(2) [OF d] by auto
qed

lemma stats_0_1_5:
  "getMatchRecommendationStats pool_0_1_5 1 pool_0_1_5 []
     = \<lparr>totalStudents = 3, studentsWithOpponents = 2, possibleMatches = 2, averageScoreDifference = 1\<rparr>"
  by code_simp

lemma directed_pairs_0_1_5:
  "directed_pairs pool_0_1_5 1 pool_0_1_5 []
     = [(mkStudent ''1'' ''Ann'' 0, mkStudent ''2'' ''Bob'' 1), (mkStudent ''2'' ''Bob'' 1, mkStudent ''1'' ''Ann'' 0)]"
  by code_simp

lemma stats_stale:
  "getMatchRecommendationStats stale_pool 1 stale_roster []
     = \<lparr>totalStudents = 2, studentsWithOpponents = 2, possibleMatches = 2, averageScoreDifference = 3 / 2\<rparr>"
  by code_simp

lemma directed_pairs_stale:
  "directed_pairs stale_pool 1 stale_roster []
     = [(mkStudent ''1'' ''Ann'' 3, mkStudent ''2'' ''Bob'' 1), (mkStudent ''2'' ''Bob'' 1, mkStudent ''1'' ''Ann'' 0)]"
  by code_simp

theorem pairing_stats_totals_witness:
  "distinct (map id_student pool_0_1_5)
   \<and> 2 \<le> length pool_0_1_5
   \<and> length (directed_pairs pool_0_1_5 1 pool_0_1_5 []) = 2
   \<and> possibleMatches (getMatchRecommendationStats pool_0_1_5 1 pool_0_1_5 []) = 2
   \<and> averageScoreDifference (getMatchRecommendationStats pool_0_1_5 1 pool_0_1_5 []) = 1
   \<and> 2 \<le> length stale_pool
   \<and> length (directed_pairs stale_pool 1 stale_roster []) = 2
   \<and> possibleMatches (getMatchRecommendationStats stale_pool 1 stale_roster []) = 2
   \<and> averageScoreDifference (getMatchRecommendationStats stale_pool 1 stale_roster []) = 3 / 2
   \<and> length lone_pool < 2
   \<and> possibleMatches (getMatchRecommendationStats lone_pool 1 pool_0_1_5 []) = 0"
proof -
  have d: "distinct (map id_student pool_0_1_5)" and l: "2 \<le> length pool_0_1_5"
    by (simp_all add: pool_0_1_5_def mkStudent_def)
  have l': "2 \<le> length stale_pool" by (simp add: stale_pool_def)
  have l'': "length lone_pool < 2" by (simp add: lone_pool_def)
  from pairing_stats_totals [of 1 pool_0_1_5 "[]" pool_0_1_5] l
  have "possibleMatches (getMatchRecommendationStats pool_0_1_5 1 pool_0_1_5 [])
          = length (directed_pairs pool_0_1_5 1 pool_0_1_5 [])" by blast
  moreover from pairing_stats_totals [of 1 stale_roster "[]" stale_pool] l'
  have "possibleMatches (getMatchRecommendationStats stale_pool 1 stale_roster [])
          = length (directed_pairs stale_pool 1 stale_roster [])" by blast
  moreover from pairing_stats_totals [of 1 pool_0_1_5 "[]" lone_pool] l''
  have "possibleMatches (getMatchRecommendationStats lone_pool 1 pool_0_1_5 []) = 0" by simp
  ultimately show ?thesis using d l l' l''
    by (simp add: stats_0_1_5 stats_stale directed_pairs_0_1_5 directed_pairs_stale)
qed

text \<open>
  C4 as stated fails: on the empty history \<open>canPlay\<close> accepts a competitor against
  itself.
\<close>

theorem canPlay_self_counterexample: "\<not> (\<forall>a H. \<not> canPlay a a H)"
proof
  assume "\<forall>a H. \<not> canPlay a a H"
  then have "\<not> canPlay ''A'' ''A'' []" by blast
  then show False by (simp add: canPlay_def)
qed

lemma greedy_never_self:
  assumes "\<And>st x. emits margin roster matches st x (step st x)"
    and "r \<in> set (fst (foldl step ([], {}) xs))"
  shows "id_student (playerA_rec r) \<noteq> id_student (playerB_rec r)"
proof -
  have "list_all (sound_pairing (set xs) margin roster matches) (fst (foldl step ([], {}) xs))"
    using assms(1) by (rule greedy_sound)
  with assms(2) have "sound_pairing (set xs) margin roster matches r"
    by (simp add: list_all_iff)
  then have "playerB_rec r \<in> set (getEligibleOpponents (id_student (playerA_rec r)) margin roster matches)"
    by (simp add: sound_pairing_def)
  then show ?thesis by (auto dest: eligible_not_self)
qed

text \<open>
  C4, amended: \<open>canPlay\<close> has no self check. \<open>canPlay a a H\<close> is true whenever
  fewer than 3 records of \<open>H\<close> have \<open>a\<close> as both players. Self-pairing is excluded
  by the callers: \<open>getEligibleOpponents\<close> drops the candidate with the competitor's
  own id before it calls \<open>canPlay\<close>, so no competitor is its own eligible opponent,
  and no pairing of a generated round has the same id on both sides.
\<close>

theorem self_pairing_excluded_by_callers:
  "(length (filter (\<lambda>m. playerA m = a \<and> playerB m = a) H) < 3 \<longrightarrow> canPlay a a H)
   \<and> (\<forall>x \<in> set (getEligibleOpponents a margin students H). id_student x \<noteq> a)
   \<and> (\<forall>r \<in> set (getMatchRecommendations pool margin rnd students H).
          id_student (playerA_rec r) \<noteq> id_student (playerB_rec r))
   \<and> (\<forall>r \<in> set (getOptimizedMatchRecommendations pool margin students H).
          id_student (playerA_rec r) \<noteq> id_student (playerB_rec r))"
proof (intro conjI impI ballI)
  assume "length (filter (\<lambda>m. playerA m = a \<and> playerB m = a) H) < 3"
  then show "canPlay a a H" by (simp add: canPlay_def)
next
  fix x assume "x \<in> set (getEligibleOpponents a margin students H)"
  then show "id_student x \<noteq> a" by (rule eligible_not_self)
next
  fix r assume "r \<in> set (getMatchRecommendations pool margin rnd students H)"
  then have "r \<in> set (fst (foldl (recommend_step margin students H) ([], {}) (shuffleArray rnd pool)))"
    by (simp add: getMatchRecommendations_def split: if_splits)
  with recommend_step_emits show "id_student (playerA_rec r) \<noteq> id_student (playerB_rec r)"
    by (rule greedy_never_self)
next
  fix r assume "r \<in> set (getOptimizedMatchRecommendations pool margin students H)"
  then have "r \<in> set (fst (foldl (optimized_step margin students H) ([], {})
                               (sort_cmp (\<lambda>a b. score b - score a) pool)))"
    by (simp add: getOptimizedMatchRecommendations_def Let_def split: if_splits)
  with optimized_step_emits show "id_student (playerA_rec r) \<noteq> id_student (playerB_rec r)"
    by (rule greedy_never_self)
qed

lemma eligible_of_1: "getEligibleOpponents ''1'' 1 pool_0_1_5 [] = [mkStudent ''2'' ''Bob'' 1]"
  by code_simp

theorem self_pairing_excluded_by_callers_witness:
  "length (filter (\<lambda>m. playerA m = ''1'' \<and> playerB m = ''1'') []) < 3
   \<and> canPlay ''1'' ''1'' []
   \<and> map id_student (getEligibleOpponents ''1'' 1 pool_0_1_5 []) = [''2'']
   \<and> list_all (\<lambda>x. id_student x \<noteq> ''1'') (getEligibleOpponents ''1'' 1 pool_0_1_5 [])"
  using self_pairing_excluded_by_callers [of "''1''" "[]" 1 pool_0_1_5 pool_0_1_5 "\<lambda>i. i"]
  by (simp add: list_all_iff eligible_of_1 mkStudent_def)

text \<open>
  C9 as stated fails: an id that is not in the roster, and a negative margin, each give the
  empty list, the result of a competitor without eligible opponents.
\<close>

theorem unknown_id_or_negative_margin_counterexample:
  "getEligibleOpponents ''9'' 1 pool_0_1_5 [] = []
   \<and> getEligibleOpponents ''1'' (- 1) pool_0_1_5 [] = []"
  by code_simp

lemma eligible_empty:
  assumes "margin < 0 \<or> sid \<notin> set (map id_student students)"
  shows "getEligibleOpponents sid margin students H = []"
proof -
  have "x \<notin> set (getEligibleOpponents sid margin students H)" for x
  proof
    assume "x \<in> set (getEligibleOpponents sid margin students H)"
    then obtain t where t: "find (\<lambda>s. id_student s = sid) students = Some t"
      and m: "\<bar>score t - score x\<bar> \<le> margin"
      unfolding eligible_iff by blast
    from t have "sid \<in> set (map id_student students)"
      by (auto simp: find_Some_iff)
    moreover from m have "0 \<le> margin" by linarith
    ultimately show False using assms by auto
  qed
  then show ?thesis by (cases "getEligibleOpponents sid margin students H") auto
qed

text \<open>
  C9, amended: with a negative margin, or an id that is not in the roster,
  \<open>getEligibleOpponents\<close> returns the empty list and its derivatives return their
  empty results (no details, no best opponent, no recommendations, no eligible opponent);
  no error is raised.
\<close>

theorem unknown_id_or_negative_margin_give_empty:
  "margin < 0 \<or> sid \<notin> set (map id_student students) \<Longrightarrow>
     getEligibleOpponents sid margin students H = []
   \<and> getEligibleOpponentsWithDetails sid margin students H = []
   \<and> getBestOpponentRecommendation sid margin students H = None
   \<and> getOpponentRecommendations sid margin limit students H = []
   \<and> \<not> hasEligibleOpponents sid margin students H"
proof -
  assume "margin < 0 \<or> sid \<notin> set (map id_student students)"
  then have e: "getEligibleOpponents sid margin students H = []" by (rule eligible_empty)
  then have d: "getEligibleOpponentsWithDetails sid margin students H = []"
    by (simp add: getEligibleOpponentsWithDetails_def sort_cmp_def split: option.splits)
  from e d show ?thesis
    by (simp add: getBestOpponentRecommendation_def getOpponentRecommendations_def hasEligibleOpponents_def)
qed

theorem unknown_id_or_negative_margin_give_empty_witness:
  "''9'' \<notin> set (map id_student pool_0_1_5)
   \<and> getEligibleOpponents ''9'' 0 pool_0_1_5 [] = []
   \<and> getBestOpponentRecommendation ''9'' 0 pool_0_1_5 [] = None
   \<and> (- 1 :: int) < 0
   \<and> getBestOpponentRecommendation ''1'' (- 1) pool_0_1_5 [] = None"
proof -
  have u: "''9'' \<notin> set (map id_student pool_0_1_5)"
    by (simp add: pool_0_1_5_def mkStudent_def)
  have n: "(- 1 :: int) < 0" by simp
  from unknown_id_or_negative_margin_give_empty [of 0 "''9''" pool_0_1_5 "[]" 5] u
  have "getEligibleOpponents ''9'' 0 pool_0_1_5 [] = []
        \<and> getBestOpponentRecommendation ''9'' 0 pool_0_1_5 [] = None" by blast
  moreover from unknown_id_or_negative_margin_give_empty [of "- 1" "''1''" pool_0_1_5 "[]" 5] n
  have "getBestOpponentRecommendation ''1'' (- 1) pool_0_1_5 [] = None" by blast
  ultimately show ?thesis using u n by blast
qed

text \<open>
  What the detailed opponent list does guarantee: it holds the eligible opponents, sorted
  by score difference and then by match count, and the best opponent is its first element.
\<close>

lemma details_sorted_by_difference_then_count:
  "sorted_wrt (\<lambda>x y. scoreDifference_det x < scoreDifference_det y
                   \<or> (scoreDifference_det x = scoreDifference_det y \<and> matchCount_det x \<le> matchCount_det y))
     (getEligibleOpponentsWithDetails sid margin students H)"
proof (cases "find (\<lambda>s. id_student s = sid) students")
  case None
  then show ?thesis by (simp add: getEligibleOpponentsWithDetails_def)
next
  case (Some t)
  let ?cmp = "\<lambda>x y. if scoreDifference_det x \<noteq> scoreDifference_det y
                     then scoreDifference_det x - scoreDifference_det y
                     else int (matchCount_det x) - int (matchCount_det y)"
  have le: "(?cmp x y \<le> 0) = (scoreDifference_det x < scoreDifference_det y
                   \<or> (scoreDifference_det x = scoreDifference_det y \<and> matchCount_det x \<le> matchCount_det y))"
    for x y :: OpponentDetails
    by auto
  have "sorted_wrt (\<lambda>x y. ?cmp x y \<le> 0) (sort_cmp ?cmp xs)" for xs :: "OpponentDetails list"
    by (rule sorted_sort_cmp) (auto split: if_splits)
  then show ?thesis
    unfolding getEligibleOpponentsWithDetails_def Some le by simp
qed

lemma best_is_first_detail:
  "getBestOpponentRecommendation sid margin students H
     = (case getEligibleOpponentsWithDetails sid margin students H of
          [] \<Rightarrow> None | d # _ \<Rightarrow> Some (student_det d))"
  by (simp add: getBestOpponentRecommendation_def Let_def split: list.splits)

lemma details_are_eligible:
  "mset (map student_det (getEligibleOpponentsWithDetails sid margin students H))
     = mset (getEligibleOpponents sid margin students H)"
proof (cases "find (\<lambda>s. id_student s = sid) students")
  case None
  then show ?thesis by (simp add: getEligibleOpponentsWithDetails_def getEligibleOpponents_def)
next
  case (Some t)
  have sorted: "mset (map student_det (sort_cmp c ys)) = mset (map student_det ys)"
    for c :: "OpponentDetails \<Rightarrow> OpponentDetails \<Rightarrow> int" and ys
    by (simp only: mset_map mset_sort_cmp)
  have mapped: "map student_det (map (\<lambda>x. \<lparr>student_det = x, matchCount_det = n x,
                     lastPlayed = l x, scoreDifference_det = d x\<rparr>) xs) = xs"
    for n l d and xs :: "Student list"
    by (induction xs) simp_all
  show ?thesis
    unfolding getEligibleOpponentsWithDetails_def Some Let_def
    by (simp only: option.case sorted mapped)
qed

text \<open>
  C5 at a tie: two opponents with the same score difference and the same number of prior
  records are returned in roster order, \<open>Zed\<close> before \<open>Amy\<close>, and \<open>Zed\<close> is the
  best opponent. The sort of \<open>getEligibleOpponentsWithDetails\<close> compares the score
  difference and the match count only.
\<close>

theorem name_tie_break_missing:
  "map (name \<circ> student_det) (getEligibleOpponentsWithDetails ''t'' 1 tie_roster []) = [''Zed'', ''Amy'']
   \<and> map scoreDifference_det (getEligibleOpponentsWithDetails ''t'' 1 tie_roster []) = [0, 0]
   \<and> map matchCount_det (getEligibleOpponentsWithDetails ''t'' 1 tie_roster []) = [0, 0]
   \<and> map_option name (getBestOpponentRecommendation ''t'' 1 tie_roster []) = Some ''Zed''"
  by code_simp

end
